theory Spec2Isabelle
  imports Main "HOL-Library.Word"
begin

section \<open>XMLHttpRequest over fetch: the data model of \<open>mod.ts\<close>\<close>

text \<open>
  The class \<open>XMLHttpRequest\<close> of \<open>mod.ts\<close> keeps a private record \<open>#state\<close> (interface
  \<open>State\<close>), the public field \<open>timeout\<close> and five single-slot callback properties. It
  talks to the platform through \<open>fetch\<close>, \<open>setTimeout\<close>/\<open>clearTimeout\<close>,
  \<open>AbortController\<close>, \<open>URL\<close>, \<open>Headers\<close>, \<open>TextDecoder\<close> and \<open>JSON.parse\<close>.

  The embedding is one record \<open>world\<close>: the fields of \<open>#state\<close>, the public fields of the
  instance, and the part of the platform the instance can reach (a logical clock in
  milliseconds, the armed timers, the exchanges in flight, the abort signals raised, and a
  log of every callback invocation and platform call, in the order they happen).
  Every method is a function from \<open>world\<close> to an outcome and the new \<open>world\<close>; every
  continuation that \<open>send\<close> registers (the timer callback, \<open>.then\<close>, \<open>.catch\<close>, the inner
  \<open>arrayBuffer().then\<close>) is a function of its own, run when the environment delivers the
  matching event.
\<close>

subsection \<open>Values\<close>

type_synonym bytes = "8 word list"

type_synonym headers = "(string \<times> string) list"

text \<open>A \<open>Blob\<close>: its bytes and its media type.\<close>

datatype blob = Blob (blob_bytes: bytes) (blob_type: string)

text \<open>What \<open>JSON.parse\<close> returns; \<open>JNull\<close> is the JavaScript \<open>null\<close>.\<close>

datatype json =
    JNull
  | JBool bool
  | JNumber int
  | JString string
  | JArray "json list"
  | JObject "(string \<times> json) list"

text \<open>Exceptions thrown synchronously to a caller.\<close>

datatype exn = TypeError | SyntaxError | Error string

text \<open>The value a rejected promise carries.\<close>

datatype reason = NetworkError string | AbortError

datatype 'a outcome = Returned 'a | Threw exn

text \<open>What the \<open>response\<close> getter can hand back.\<close>

datatype jsvalue =
    VUndefined
  | VString string
  | VBuffer bytes
  | VBlob blob
  | VJson json

subsection \<open>The fields of \<open>State\<close>\<close>

record request_draft =
  d_method :: string
  d_url :: string
  d_headers :: headers

text \<open>
  \<open>computed\<close>: every field can be missing at run time, because \<open>overrideMimeType\<close> builds
  the object from a spread of a possibly undefined \<open>computed\<close> and the type alone.
  \<open>None\<close> is \<open>undefined\<close>.
\<close>

record computed_body =
  c_type :: "string option"
  c_blob :: "blob option"
  c_text :: "string option"
  c_buffer :: "bytes option"
  c_json :: "json option"

record raw_response =
  r_status :: nat
  r_statusText :: string
  r_url :: string
  r_headers :: headers

subsection \<open>Platform: requests, exchanges, effects\<close>

record fetch_request =
  f_method :: string
  f_url :: string
  f_headers :: headers
  f_body :: "string option"
  f_signal :: nat

text \<open>
  An exchange in flight waits for the \<open>fetch\<close> promise, then for \<open>res.blob()\<close>, then for
  \<open>blob.arrayBuffer()\<close>.
\<close>

datatype phase = AwaitHeaders | AwaitBlob | AwaitBuffer blob

datatype net_event =
    FetchResolved raw_response
  | FetchRejected reason
  | BlobRead blob
  | BufferRead
  | BodyFailed reason

datatype effect =
    Call_onreadystatechange nat
  | Call_onload
  | Call_onerror reason
  | Call_ontimeout
  | SetTimeoutCalled nat nat
  | ClearTimeoutCalled nat
  | FetchCalled fetch_request
  | AbortCalled nat
  | UnhandledRejection reason

text \<open>
  The platform functions whose results the class only passes on: \<open>new URL(url)\<close>
  (\<open>None\<close> when it throws), \<open>new TextDecoder().decode\<close> and \<open>JSON.parse\<close> (\<open>None\<close> when
  it throws a \<open>SyntaxError\<close>). They are parameters of the model.
\<close>

record platform =
  url_parse :: "string \<Rightarrow> string option"
  text_decode :: "bytes \<Rightarrow> string"
  json_parse :: "string \<Rightarrow> json option"

text \<open>
  A handler slot is \<open>True\<close> when a function is assigned to it. Handlers are observers:
  an invocation is logged with what the handler is given or can read, and does not call
  back into the instance.

  One \<open>send\<close> draws one identifier from \<open>fresh\<close>; it names the \<open>AbortController\<close>, the
  timer and the exchange that this \<open>send\<close> creates. A timer is its identifier and the
  instant at which it is due.
\<close>

record world =
  readyState :: nat
  draft :: "request_draft option"
  computed :: "computed_body option"
  controller :: "nat option"
  response :: "raw_response option"
  timeout :: int
  onreadystatechange :: bool
  onload :: bool
  onerror :: bool
  onloadstart :: bool
  ontimeout :: bool
  now :: nat
  timers :: "(nat \<times> nat) list"
  exchanges :: "nat \<Rightarrow> phase option"
  aborted :: "nat set"
  fresh :: nat
  trace :: "effect list"

definition new_XMLHttpRequest :: world where
  "new_XMLHttpRequest =
     \<lparr>readyState = 0, draft = None, computed = None, controller = None, response = None,
      timeout = 0, onreadystatechange = False, onload = False, onerror = False,
      onloadstart = False, ontimeout = False,
      now = 0, timers = [], exchanges = (\<lambda>_. None), aborted = {}, fresh = 0, trace = []\<rparr>"

definition emit :: "effect \<Rightarrow> world \<Rightarrow> world" where
  "emit e w = w\<lparr>trace := trace w @ [e]\<rparr>"

subsection \<open>The methods\<close>

definition UNSENT :: nat where "UNSENT = 0"
definition OPENED :: nat where "OPENED = 1"
definition HEADERS_RECEIVED :: nat where "HEADERS_RECEIVED = 2"
definition LOADING :: nat where "LOADING = 3"
definition DONE :: nat where "DONE = 4"

text \<open>\<open>#setReadyState\<close>: store, then call the handler unless the new state is 0.\<close>

definition setReadyState :: "nat \<Rightarrow> world \<Rightarrow> world" where
  "setReadyState newState w =
     (let w1 = w\<lparr>readyState := newState\<rparr>
      in if newState = 0 then w1
         else if onreadystatechange w1 then emit (Call_onreadystatechange (readyState w1)) w1
         else w1)"

text \<open>
  \<open>open\<close>: \<open>new URL(url)\<close> is evaluated inside the object literal, before the assignment
  to \<open>draft\<close>, so a URL that does not parse leaves everything as it was.
\<close>

definition xhr_open :: "platform \<Rightarrow> string \<Rightarrow> string \<Rightarrow> world \<Rightarrow> unit outcome \<times> world" where
  "xhr_open P m u w =
     (case url_parse P u of
        None \<Rightarrow> (Threw TypeError, w)
      | Some parsed \<Rightarrow>
          (Returned (),
           setReadyState OPENED
             (w\<lparr>draft := Some \<lparr>d_method = m, d_url = parsed, d_headers = []\<rparr>\<rparr>)))"

definition overrideMimeType :: "string \<Rightarrow> world \<Rightarrow> world" where
  "overrideMimeType t w =
     w\<lparr>computed := Some
        (case computed w of
           None \<Rightarrow> \<lparr>c_type = Some t, c_blob = None, c_text = None, c_buffer = None,
                     c_json = None\<rparr>
         | Some c \<Rightarrow> c\<lparr>c_type := Some t\<rparr>)\<rparr>"

text \<open>
  \<open>Headers.set\<close> of the platform, as the Fetch standard defines it for an object made by
  \<open>new Headers()\<close>. The value is first stripped of leading and trailing HTTP whitespace
  (tab, LF, CR, space). A name that is not an HTTP token, or a value that holds NUL, LF or
  CR, throws a \<open>TypeError\<close> and leaves the list as it is. Otherwise the header list is
  updated: names are compared byte-case-insensitively; the first entry with the name gets
  the value and keeps its place and its spelling, further entries with the name are
  removed, and a name that is not in the list is appended as given. \<open>d_headers\<close> is this
  header list.
\<close>

definition byteLowerCase :: "string \<Rightarrow> string" where
  "byteLowerCase s =
     map (\<lambda>c. if 65 \<le> (of_char c :: nat) \<and> (of_char c :: nat) \<le> 90
              then char_of (of_char c + 32 :: nat) else c) s"

definition is_tchar :: "char \<Rightarrow> bool" where
  "is_tchar c =
     (let n = (of_char c :: nat)
      in (48 \<le> n \<and> n \<le> 57) \<or> (65 \<le> n \<and> n \<le> 90) \<or> (97 \<le> n \<and> n \<le> 122) \<or>
         n \<in> set [33, 35, 36, 37, 38, 39, 42, 43, 45, 46, 94, 95, 96, 124, 126])"

definition is_header_name :: "string \<Rightarrow> bool" where
  "is_header_name n = (n \<noteq> [] \<and> list_all is_tchar n)"

definition is_http_whitespace :: "char \<Rightarrow> bool" where
  "is_http_whitespace c = ((of_char c :: nat) \<in> set [9, 10, 13, 32])"

definition normalizeHeaderValue :: "string \<Rightarrow> string" where
  "normalizeHeaderValue v =
     rev (dropWhile is_http_whitespace (rev (dropWhile is_http_whitespace v)))"

definition is_header_value :: "string \<Rightarrow> bool" where
  "is_header_value v = list_all (\<lambda>c. (of_char c :: nat) \<notin> set [0, 10, 13]) v"

text \<open>The loop of \<open>set\<close> over the list; the flag says whether the value has been stored.\<close>

fun set_first :: "string \<Rightarrow> string \<Rightarrow> bool \<Rightarrow> headers \<Rightarrow> headers" where
  "set_first ln v added [] = []"
| "set_first ln v added (kx # hs) =
     (if byteLowerCase (fst kx) = ln then
        (if added then set_first ln v True hs else (fst kx, v) # set_first ln v True hs)
      else kx # set_first ln v added hs)"

definition header_list_contains :: "string \<Rightarrow> headers \<Rightarrow> bool" where
  "header_list_contains ln hs = list_ex (\<lambda>kx. byteLowerCase (fst kx) = ln) hs"

definition header_list_set :: "string \<Rightarrow> string \<Rightarrow> headers \<Rightarrow> headers" where
  "header_list_set n v hs =
     (let ln = byteLowerCase n
      in if header_list_contains ln hs then set_first ln v False hs else hs @ [(n, v)])"

definition Headers_set :: "string \<Rightarrow> string \<Rightarrow> headers \<Rightarrow> headers option" where
  "Headers_set name val hs =
     (let v = normalizeHeaderValue val
      in if is_header_name name \<and> is_header_value v then Some (header_list_set name v hs)
         else None)"

text \<open>The first value the list holds under a name, names compared case-insensitively.\<close>

definition header_get :: "string \<Rightarrow> headers \<Rightarrow> string option" where
  "header_get n hs = map_of (map (\<lambda>kx. (byteLowerCase (fst kx), snd kx)) hs) (byteLowerCase n)"

text \<open>\<open>setRequestHeader\<close>: the guard on the ready state, then \<open>draft!.headers.set\<close>.\<close>

definition setRequestHeader :: "string \<Rightarrow> string \<Rightarrow> world \<Rightarrow> unit outcome \<times> world" where
  "setRequestHeader name val w =
     (if readyState w = OPENED then
        (case draft w of
           None \<Rightarrow> (Threw TypeError, w)
         | Some d \<Rightarrow>
             (case Headers_set name val (d_headers d) of
                None \<Rightarrow> (Threw TypeError, w)
              | Some hs \<Rightarrow> (Returned (), w\<lparr>draft := Some (d\<lparr>d_headers := hs\<rparr>)\<rparr>)))
      else (Returned (), w))"

text \<open>
  \<open>setTimeout(f, d)\<close> of the platform arms a timer that runs \<open>f\<close> once \<open>d\<close> milliseconds
  have passed; a delay of 0 or less is due at once, at the next turn of the event loop.
  \<open>clearTimeout\<close> disarms it.
\<close>

definition setTimeout :: "nat \<Rightarrow> int \<Rightarrow> world \<Rightarrow> world" where
  "setTimeout i d w =
     emit (SetTimeoutCalled i (nat d)) (w\<lparr>timers := timers w @ [(i, now w + nat d)]\<rparr>)"

definition clearTimeout :: "nat \<Rightarrow> world \<Rightarrow> world" where
  "clearTimeout i w =
     emit (ClearTimeoutCalled i) (w\<lparr>timers := filter (\<lambda>(j, _). j \<noteq> i) (timers w)\<rparr>)"

text \<open>\<open>controller.abort()\<close>.\<close>

definition controller_abort :: "nat \<Rightarrow> world \<Rightarrow> world" where
  "controller_abort c w = emit (AbortCalled c) (w\<lparr>aborted := insert c (aborted w)\<rparr>)"

text \<open>
  \<open>send\<close>, the synchronous part: the controller, the timer, then \<open>fetch(draft.url, ...)\<close>,
  whose argument \<open>draft.url\<close> throws a \<open>TypeError\<close> when there is no draft (the timer is
  armed by then, and stays armed); last, the controller is stored.
\<close>

definition send :: "string option \<Rightarrow> world \<Rightarrow> unit outcome \<times> world" where
  "send body w =
     (let i = fresh w;
          w1 = setTimeout i (timeout w) (w\<lparr>fresh := Suc i\<rparr>)
      in case draft w1 of
           None \<Rightarrow> (Threw TypeError, w1)
         | Some d \<Rightarrow>
             (let w2 = emit (FetchCalled \<lparr>f_method = d_method d, f_url = d_url d,
                                          f_headers = d_headers d, f_body = body,
                                          f_signal = i\<rparr>) w1;
                  w3 = w2\<lparr>exchanges := (exchanges w2)(i \<mapsto> AwaitHeaders)\<rparr>
              in (Returned (), w3\<lparr>controller := Some i\<rparr>)))"

text \<open>The timer callback of \<open>send\<close>: \<open>controller.abort(); ontimeout?.()\<close>.\<close>

definition send_timer :: "nat \<Rightarrow> world \<Rightarrow> world" where
  "send_timer i w =
     (let w1 = controller_abort i w
      in if ontimeout w1 then emit Call_ontimeout w1 else w1)"

text \<open>The \<open>.then\<close> callback of \<open>send\<close>, up to the call of \<open>res.blob()\<close>.\<close>

definition send_then :: "nat \<Rightarrow> raw_response \<Rightarrow> world \<Rightarrow> world" where
  "send_then i res w =
     (let w1 = clearTimeout i w;
          w2 = w1\<lparr>response := Some res\<rparr>;
          w3 = setReadyState HEADERS_RECEIVED w2;
          w4 = setReadyState LOADING w3
      in w4\<lparr>exchanges := (exchanges w4)(i \<mapsto> AwaitBlob)\<rparr>)"

text \<open>The callback of \<open>blob.arrayBuffer().then\<close>: the three materializations, the default
  type, \<open>DONE\<close>, \<open>onload\<close>.\<close>

definition send_done :: "platform \<Rightarrow> nat \<Rightarrow> blob \<Rightarrow> world \<Rightarrow> world" where
  "send_done P i b w =
     (let buf = blob_bytes b;
          c0 = (case computed w of
                  None \<Rightarrow> \<lparr>c_type = None, c_blob = None, c_text = None, c_buffer = None,
                            c_json = None\<rparr>
                | Some c \<Rightarrow> c);
          c1 = c0\<lparr>c_text := Some (text_decode P buf), c_buffer := Some buf, c_blob := Some b\<rparr>;
          c2 = (case c_type c1 of None \<Rightarrow> c1\<lparr>c_type := Some ''text''\<rparr> | Some _ \<Rightarrow> c1);
          w1 = setReadyState DONE (w\<lparr>computed := Some c2\<rparr>);
          w2 = (if onload w1 then emit Call_onload w1 else w1)
      in w2\<lparr>exchanges := (exchanges w2)(i := None)\<rparr>)"

text \<open>The \<open>.catch\<close> callback of \<open>send\<close>.\<close>

definition send_catch :: "nat \<Rightarrow> reason \<Rightarrow> world \<Rightarrow> world" where
  "send_catch i e w =
     (let w1 = clearTimeout i w;
          w2 = (if onerror w1 then emit (Call_onerror e) w1 else w1)
      in w2\<lparr>exchanges := (exchanges w2)(i := None)\<rparr>)"

text \<open>
  \<open>res.blob().then(...)\<close> is not returned from the \<open>.then\<close> callback, so a rejection of
  \<open>res.blob()\<close> or of \<open>blob.arrayBuffer()\<close> reaches no handler of the class.
\<close>

definition body_rejected :: "nat \<Rightarrow> reason \<Rightarrow> world \<Rightarrow> world" where
  "body_rejected i e w = (emit (UnhandledRejection e) w)\<lparr>exchanges := (exchanges w)(i := None)\<rparr>"

definition abort :: "world \<Rightarrow> unit outcome \<times> world" where
  "abort w =
     (case controller w of
        None \<Rightarrow> (Threw TypeError, w)
      | Some c \<Rightarrow> (Returned (), controller_abort c w))"

subsection \<open>The event loop\<close>

text \<open>
  Time moves forward only. Moving the clock to \<open>t\<close> runs the callbacks of the timers due
  before \<open>t\<close>, earliest first (timers due at the same instant in the order they were
  armed); a timer due at \<open>t\<close> itself waits behind whatever is delivered at \<open>t\<close>.
\<close>

definition due_timers :: "nat \<Rightarrow> world \<Rightarrow> (nat \<times> nat) list" where
  "due_timers t w = sort_key snd (filter (\<lambda>(i, d). d < t) (timers w))"

definition fire_timer :: "world \<Rightarrow> nat \<times> nat \<Rightarrow> world" where
  "fire_timer w tm =
     send_timer (fst tm) (w\<lparr>timers := filter (\<lambda>(j, _). j \<noteq> fst tm) (timers w)\<rparr>)"

definition advance :: "nat \<Rightarrow> world \<Rightarrow> world" where
  "advance t w =
     (if t \<le> now w then w else (foldl fire_timer w (due_timers t w))\<lparr>now := t\<rparr>)"

text \<open>
  The environment settles a promise of exchange \<open>i\<close>: the continuation registered for it
  runs; an event that does not fit the phase of the exchange cannot happen (\<open>None\<close>).
  An abort signal does not bind the environment: the promise of an aborted exchange may
  still be fulfilled (the comment above \<open>abort\<close> says \<open>fetch\<close> may ignore the signal) or
  be rejected.
\<close>

fun settle :: "platform \<Rightarrow> nat \<Rightarrow> phase option \<Rightarrow> net_event \<Rightarrow> world \<Rightarrow> world option" where
  "settle P i (Some AwaitHeaders) (FetchResolved res) w = Some (send_then i res w)"
| "settle P i (Some AwaitHeaders) (FetchRejected e) w = Some (send_catch i e w)"
| "settle P i (Some AwaitBlob) (BlobRead b) w =
     Some (w\<lparr>exchanges := (exchanges w)(i \<mapsto> AwaitBuffer b)\<rparr>)"
| "settle P i (Some AwaitBlob) (BodyFailed e) w = Some (body_rejected i e w)"
| "settle P i (Some (AwaitBuffer b)) BufferRead w = Some (send_done P i b w)"
| "settle P i (Some (AwaitBuffer b)) (BodyFailed e) w = Some (body_rejected i e w)"
| "settle P i _ _ w = None"

definition deliver :: "platform \<Rightarrow> nat \<Rightarrow> nat \<Rightarrow> net_event \<Rightarrow> world \<Rightarrow> world option" where
  "deliver P t i ev w = (let w0 = advance t w in settle P i (exchanges w0 i) ev w0)"

subsection \<open>The getters\<close>

definition get_responseText :: "world \<Rightarrow> string option" where
  "get_responseText w = (case computed w of None \<Rightarrow> None | Some c \<Rightarrow> c_text c)"

definition get_responseType :: "world \<Rightarrow> string" where
  "get_responseType w =
     (case computed w of
        None \<Rightarrow> ''text''
      | Some c \<Rightarrow> (case c_type c of None \<Rightarrow> ''text'' | Some t \<Rightarrow> t))"

definition get_responseURL :: "world \<Rightarrow> string option" where
  "get_responseURL w = (case response w of None \<Rightarrow> None | Some r \<Rightarrow> Some (r_url r))"




definition opt_value :: "('a \<Rightarrow> jsvalue) \<Rightarrow> 'a option \<Rightarrow> jsvalue" where
  "opt_value f x = (case x of None \<Rightarrow> VUndefined | Some y \<Rightarrow> f y)"

text \<open>
  \<open>computed.json ??= JSON.parse(computed.text)\<close>: the right-hand side runs when the cache
  is \<open>undefined\<close> or \<open>null\<close>; \<open>JSON.parse\<close> turns its argument into a string first, so an
  absent text is parsed as the word \<open>undefined\<close>. The second component of the result says
  how many times \<open>JSON.parse\<close> ran.
\<close>

definition json_cached :: "computed_body \<Rightarrow> bool" where
  "json_cached c = (case c_json c of None \<Rightarrow> False | Some JNull \<Rightarrow> False | Some _ \<Rightarrow> True)"

definition get_response_counted :: "platform \<Rightarrow> world \<Rightarrow> (jsvalue outcome \<times> nat) \<times> world" where
  "get_response_counted P w =
     (let t = get_responseType w in
      if t = ''arraybuffer'' then
        (case computed w of
           None \<Rightarrow> ((Threw TypeError, 0), w)
         | Some c \<Rightarrow> ((Returned (opt_value VBuffer (c_buffer c)), 0), w))
      else if t = ''blob'' then
        (case computed w of
           None \<Rightarrow> ((Threw TypeError, 0), w)
         | Some c \<Rightarrow> ((Returned (opt_value VBlob (c_blob c)), 0), w))
      else if t = ''json'' then
        (case computed w of
           None \<Rightarrow> ((Threw TypeError, 0), w)
         | Some c \<Rightarrow>
             (if json_cached c then ((Returned (opt_value VJson (c_json c)), 0), w)
              else (case json_parse P (case c_text c of None \<Rightarrow> ''undefined'' | Some s \<Rightarrow> s) of
                      None \<Rightarrow> ((Threw SyntaxError, 1), w)
                    | Some j \<Rightarrow>
                        ((Returned (VJson j), 1),
                         w\<lparr>computed := Some (c\<lparr>c_json := Some j\<rparr>)\<rparr>))))
      else if t = ''text'' then
        (case computed w of
           None \<Rightarrow> ((Threw TypeError, 0), w)
         | Some c \<Rightarrow> ((Returned (opt_value VString (c_text c)), 0), w))
      else ((Threw (Error ''Unimplemented.''), 0), w))"

definition get_response :: "platform \<Rightarrow> world \<Rightarrow> jsvalue outcome \<times> world" where
  "get_response P w = (let (r, w1) = get_response_counted P w in (fst r, w1))"

text \<open>\<open>Array.prototype.join\<close>.\<close>

fun join :: "string \<Rightarrow> string list \<Rightarrow> string" where
  "join sep [] = []"
| "join sep [x] = x"
| "join sep (x # y # ys) = x @ sep @ join sep (y # ys)"

definition CRLF :: string where
  "CRLF = [CHR 0x0D, CHR 0x0A]"

definition header_line :: "string \<times> string \<Rightarrow> string" where
  "header_line kv = fst kv @ '': '' @ snd kv"

text \<open>\<open>r_headers\<close> holds what \<open>headers.entries()\<close> yields, in its order.\<close>

definition getAllResponseHeaders :: "world \<Rightarrow> string outcome" where
  "getAllResponseHeaders w =
     (case response w of
        None \<Rightarrow> Threw TypeError
      | Some r \<Rightarrow> Returned (join CRLF (map header_line (r_headers r))))"

subsection \<open>Histories of one instance\<close>

text \<open>
  What a caller and the environment can do to an instance, one step at a time: call a
  method, read the \<open>response\<close> getter (the one getter that writes), assign a public field,
  let time pass, or settle a promise of an exchange at some instant.
\<close>

datatype action =
    Open string string
  | OverrideMimeType string
  | SetRequestHeader string string
  | Send "string option"
  | Abort
  | ReadResponse
  | AssignTimeout int
  | AssignOnreadystatechange bool
  | AssignOnload bool
  | AssignOnerror bool
  | AssignOnloadstart bool
  | AssignOntimeout bool
  | Elapse nat
  | Settle nat nat net_event

fun perform :: "platform \<Rightarrow> world \<Rightarrow> action \<Rightarrow> world" where
  "perform P w (Open m u) = snd (xhr_open P m u w)"
| "perform P w (OverrideMimeType t) = overrideMimeType t w"
| "perform P w (SetRequestHeader n v) = snd (setRequestHeader n v w)"
| "perform P w (Send body) = snd (send body w)"
| "perform P w Abort = snd (abort w)"
| "perform P w ReadResponse = snd (get_response P w)"
| "perform P w (AssignTimeout d) = w\<lparr>timeout := d\<rparr>"
| "perform P w (AssignOnreadystatechange h) = w\<lparr>onreadystatechange := h\<rparr>"
| "perform P w (AssignOnload h) = w\<lparr>onload := h\<rparr>"
| "perform P w (AssignOnerror h) = w\<lparr>onerror := h\<rparr>"
| "perform P w (AssignOnloadstart h) = w\<lparr>onloadstart := h\<rparr>"
| "perform P w (AssignOntimeout h) = w\<lparr>ontimeout := h\<rparr>"
| "perform P w (Elapse t) = advance t w"
| "perform P w (Settle t i ev) = (case deliver P t i ev w of None \<Rightarrow> w | Some w1 \<Rightarrow> w1)"

definition run :: "platform \<Rightarrow> action list \<Rightarrow> world" where
  "run P acts = foldl (perform P) new_XMLHttpRequest acts"

text \<open>Which ready states the \<open>onreadystatechange\<close> handler saw, in order.\<close>

fun readystate_calls :: "effect list \<Rightarrow> nat list" where
  "readystate_calls [] = []"
| "readystate_calls (Call_onreadystatechange n # es) = n # readystate_calls es"
| "readystate_calls (e # es) = readystate_calls es"

subsection \<open>Reading the header block back (the spec's side)\<close>

text \<open>
  The spec describes a consumer of \<open>getAllResponseHeaders\<close>: split the output on CRLF and
  read each line as \<open>name: value\<close>. \<open>split_crlf\<close> is \<open>String.prototype.split\<close> with the
  separator CRLF (the empty string splits into one empty piece); \<open>parse_header_line\<close> cuts a
  line at its first colon followed by a space.
\<close>

fun split_crlf :: "string \<Rightarrow> string list" where
  "split_crlf [] = [[]]"
| "split_crlf [c] = [[c]]"
| "split_crlf (c # d # cs) =
     (if c = CHR 0x0D \<and> d = CHR 0x0A then [] # split_crlf cs
      else (case split_crlf (d # cs) of [] \<Rightarrow> [[c]] | l # ls \<Rightarrow> (c # l) # ls))"

fun parse_header_line :: "string \<Rightarrow> (string \<times> string) option" where
  "parse_header_line [] = None"
| "parse_header_line [c] = None"
| "parse_header_line (c # d # cs) =
     (if c = CHR '':'' \<and> d = CHR '' '' then Some ([], cs)
      else (case parse_header_line (d # cs) of
              None \<Rightarrow> None
            | Some kv \<Rightarrow> Some (c # fst kv, snd kv)))"

definition reparse_headers :: "string \<Rightarrow> (string \<times> string) option list" where
  "reparse_headers s = map parse_header_line (split_crlf s)"

text \<open>
  What the platform's \<open>Headers\<close> guarantees of every entry it yields: the name is a token
  (no colon, no carriage return) and the value holds no carriage return.
\<close>

definition header_entry_ok :: "string \<times> string \<Rightarrow> bool" where
  "header_entry_ok kv =
     (CHR '':'' \<notin> set (fst kv) \<and> CHR 0x0D \<notin> set (fst kv) \<and> CHR 0x0D \<notin> set (snd kv))"

subsection \<open>Predicates on instances and histories\<close>

text \<open>An action that sets the response type explicitly.\<close>

fun sets_type :: "action \<Rightarrow> bool" where
  "sets_type (OverrideMimeType t) = True"
| "sets_type a = False"

text \<open>\<open>computed\<close> is absent or declares the type \<open>text\<close>.\<close>

definition type_default :: "world \<Rightarrow> bool" where
  "type_default w = (case computed w of None \<Rightarrow> True | Some c \<Rightarrow> c_type c = Some ''text'')"

text \<open>Some representation of a body is stored; all three that \<open>send\<close> stores are.\<close>

definition body_present :: "computed_body \<Rightarrow> bool" where
  "body_present c =
     (c_text c \<noteq> None \<or> c_buffer c \<noteq> None \<or> c_blob c \<noteq> None \<or> c_json c \<noteq> None)"

definition body_complete :: "computed_body \<Rightarrow> bool" where
  "body_complete c = (c_text c \<noteq> None \<and> c_buffer c \<noteq> None \<and> c_blob c \<noteq> None)"

text \<open>
  The order in which \<open>response\<close> and the body representations appear: a body
  representation only with a response; a response from \<open>HEADERS_RECEIVED\<close> on; the three
  representations at \<open>DONE\<close>.
\<close>

definition populated_in_order :: "world \<Rightarrow> bool" where
  "populated_in_order w =
     ((case computed w of None \<Rightarrow> True | Some c \<Rightarrow> body_present c \<longrightarrow> response w \<noteq> None) \<and>
      (readyState w \<in> {HEADERS_RECEIVED, LOADING, DONE} \<longrightarrow> response w \<noteq> None) \<and>
      (readyState w = DONE \<longrightarrow>
         (case computed w of None \<Rightarrow> False | Some c \<Rightarrow> body_complete c)))"

text \<open>Every exchange past the arrival of its headers has left a response behind.\<close>

definition body_reads_have_response :: "world \<Rightarrow> bool" where
  "body_reads_have_response w =
     (\<forall>i. exchanges w i \<noteq> None \<longrightarrow> exchanges w i \<noteq> Some AwaitHeaders \<longrightarrow> response w \<noteq> None)"

text \<open>The two together are what every step of a history preserves.\<close>

definition full_inv :: "world \<Rightarrow> bool" where
  "full_inv w = (populated_in_order w \<and> body_reads_have_response w)"



text \<open>The entries a timer callback of \<open>send\<close> can add to the log.\<close>

fun timer_effect :: "effect \<Rightarrow> bool" where
  "timer_effect (AbortCalled c) = True"
| "timer_effect Call_ontimeout = True"
| "timer_effect e = False"

subsection \<open>A concrete platform and concrete histories\<close>

text \<open>
  A small platform to run the model on: URLs are accepted when they start with
  \<open>https://\<close>, bytes decode as ASCII, and \<open>JSON.parse\<close> is given on four texts.
\<close>

definition example_platform :: platform where
  "example_platform =
     \<lparr>url_parse = (\<lambda>u. if take 8 u = ''https://'' then Some u else None),
      text_decode = map (\<lambda>b. char_of (unat b)),
      json_parse = (\<lambda>s. if s = ''null'' then Some JNull
                         else if s = ''7'' then Some (JNumber 7)
                         else if s = ''[1]'' then Some (JArray [JNumber 1])
                         else if s = ''[2]'' then Some (JArray [JNumber 2])
                         else None)\<rparr>"

definition example_response :: raw_response where
  "example_response =
     \<lparr>r_status = 200, r_statusText = ''OK'', r_url = ''https://example.test/x'',
      r_headers = [(''content-length'', ''3''), (''content-type'', ''text/plain'')]\<rparr>"

definition bare_response :: raw_response where
  "bare_response =
     \<lparr>r_status = 204, r_statusText = ''No Content'', r_url = ''https://example.test/x'',
      r_headers = []\<rparr>"

definition blob_1 :: blob where
  "blob_1 = Blob [0x5B, 0x31, 0x5D] ''text/plain''"

definition blob_2 :: blob where
  "blob_2 = Blob [0x5B, 0x32, 0x5D] ''text/plain''"

definition blob_null :: blob where
  "blob_null = Blob [0x6E, 0x75, 0x6C, 0x6C] ''application/json''"

text \<open>One exchange that succeeds, with a handler in every slot and a timeout of 50 ms.\<close>

definition example_exchange :: "action list" where
  "example_exchange =
     [AssignOnreadystatechange True, AssignOnload True, AssignOnerror True,
      AssignOntimeout True, AssignTimeout 50,
      Open ''GET'' ''https://example.test/x'', Send None,
      Settle 10 0 (FetchResolved example_response),
      Settle 12 0 (BlobRead blob_1),
      Settle 13 0 BufferRead]"

text \<open>The example exchange up to, and without, the last step.\<close>

definition example_before_done :: "action list" where
  "example_before_done = butlast example_exchange"

text \<open>An exchange whose response carries no header at all, up to the arrival of the
  headers.\<close>

definition bare_exchange :: "action list" where
  "bare_exchange =
     [Open ''GET'' ''https://example.test/x'', Send None,
      Settle 0 0 (FetchResolved bare_response)]"

text \<open>Three histories that the evaluations below run: a default timeout with a response
  after 5 ms; two exchanges in a row on one instance with the type \<open>json\<close>; one exchange
  whose body is the text \<open>null\<close>.\<close>

definition zero_timeout_exchange :: "action list" where
  "zero_timeout_exchange =
     [AssignOntimeout True, Open ''GET'' ''https://example.test/x'', Send None,
      Settle 5 0 (FetchResolved example_response)]"

definition two_json_exchanges :: "action list" where
  "two_json_exchanges =
     [AssignTimeout 50, OverrideMimeType ''json'',
      Open ''GET'' ''https://example.test/x'', Send None,
      Settle 10 0 (FetchResolved example_response),
      Settle 12 0 (BlobRead blob_1),
      Settle 13 0 BufferRead,
      ReadResponse,
      Open ''GET'' ''https://example.test/y'', Send None,
      Settle 30 1 (FetchResolved example_response),
      Settle 32 1 (BlobRead blob_2),
      Settle 33 1 BufferRead]"

definition null_json_exchange :: "action list" where
  "null_json_exchange =
     [AssignTimeout 50, OverrideMimeType ''json'',
      Open ''GET'' ''https://example.test/x'', Send None,
      Settle 10 0 (FetchResolved example_response),
      Settle 12 0 (BlobRead blob_null),
      Settle 13 0 BufferRead]"

text \<open>An instance right after \<open>open\<close>.\<close>

definition opened_example :: "action list" where
  "opened_example = [Open ''GET'' ''https://example.test/x'']"


text \<open>An exchange whose body read fails after the headers have arrived.\<close>

definition body_failure_exchange :: "action list" where
  "body_failure_exchange =
     [AssignOnerror True, AssignTimeout 50, Open ''GET'' ''https://example.test/x'', Send None,
      Settle 10 0 (FetchResolved example_response),
      Settle 12 0 (BodyFailed (NetworkError ''connection reset''))]"

section \<open>Facts shared by the proofs\<close>

lemmas ready_defs = UNSENT_def OPENED_def HEADERS_RECEIVED_def LOADING_def DONE_def

subsection \<open>The \<open>response\<close> getter, branch by branch\<close>


lemma snd_get_response: "snd (get_response P w) = snd (get_response_counted P w)"
  by (simp add: get_response_def split_beta)

lemma json_cached_iff: "json_cached c \<longleftrightarrow> (\<exists>j. c_json c = Some j \<and> j \<noteq> JNull)"
  by (auto simp: json_cached_def split: option.splits json.splits)



lemma getter_text:
  "computed w = Some c \<Longrightarrow> c_type c = Some ''text'' \<Longrightarrow>
   get_response P w = (Returned (opt_value VString (c_text c)), w)"
  by (simp add: get_response_def get_response_counted_def get_responseType_def)



lemma getter_json_fail:
  "computed w = Some c \<Longrightarrow> c_type c = Some ''json'' \<Longrightarrow> \<not> json_cached c \<Longrightarrow>
   c_text c = Some s \<Longrightarrow> json_parse P s = None \<Longrightarrow>
   get_response P w = (Threw SyntaxError, w)"
  by (simp add: get_response_def get_response_counted_def get_responseType_def)



subsection \<open>What \<open>#setReadyState\<close> and \<open>open\<close> leave alone\<close>

lemma setReadyState_response [simp]: "response (setReadyState n w) = response w"
  by (simp add: setReadyState_def emit_def Let_def)

lemma setReadyState_computed [simp]: "computed (setReadyState n w) = computed w"
  by (simp add: setReadyState_def emit_def Let_def)



subsection \<open>The example exchange, evaluated\<close>


lemma example_done_readyState: "readyState (run example_platform example_exchange) = DONE"
  by code_simp

lemma example_done_response:
  "response (run example_platform example_exchange) = Some example_response"
  by code_simp

subsection \<open>Splitting and reading header lines\<close>

lemma split_crlf_nonempty: "split_crlf s \<noteq> []"
  by (induction s rule: split_crlf.induct) (simp_all split: list.splits)

lemma split_crlf_Cons:
  "CHR 0x0D \<noteq> c \<Longrightarrow>
   split_crlf (c # cs) = (c # hd (split_crlf cs)) # tl (split_crlf cs)"
proof (cases cs)
  case Nil
  then show ?thesis by simp
next
  case (Cons d ds)
  assume "CHR 0x0D \<noteq> c"
  then have "c \<noteq> CHR 0x0D" by blast
  with Cons split_crlf_nonempty [of "d # ds"] show ?thesis
    by (cases "split_crlf (d # ds)") simp_all
qed

lemma split_crlf_line: "CHR 0x0D \<notin> set l \<Longrightarrow> split_crlf l = [l]"
  by (induction l) (simp_all add: split_crlf_Cons)

lemma split_crlf_append:
  "CHR 0x0D \<notin> set l \<Longrightarrow> split_crlf (l @ CRLF @ rest) = l # split_crlf rest"
proof (induction l)
  case Nil
  show ?case by (simp add: CRLF_def)
next
  case (Cons a l)
  then show ?case by (simp add: split_crlf_Cons)
qed

lemma parse_header_line_Cons:
  "CHR '':'' \<noteq> c \<Longrightarrow> cs \<noteq> [] \<Longrightarrow>
   parse_header_line (c # cs) =
     (case parse_header_line cs of None \<Rightarrow> None | Some kv \<Rightarrow> Some (c # fst kv, snd kv))"
proof -
  assume "CHR '':'' \<noteq> c" and "cs \<noteq> []"
  then have "c \<noteq> CHR '':''" by blast
  with \<open>cs \<noteq> []\<close> show ?thesis by (cases cs) simp_all
qed

lemma parse_header_line_roundtrip:
  "CHR '':'' \<notin> set k \<Longrightarrow> parse_header_line (k @ '': '' @ v) = Some (k, v)"
  by (induction k) (simp_all add: parse_header_line_Cons)

lemma header_line_no_cr:
  "header_entry_ok kv \<Longrightarrow> CHR 0x0D \<notin> set (header_line kv)"
  by (simp add: header_entry_ok_def header_line_def)

lemma parse_header_line_entry:
  "header_entry_ok kv \<Longrightarrow> parse_header_line (header_line kv) = Some kv"
  using parse_header_line_roundtrip [of "fst kv" "snd kv"]
  by (simp add: header_entry_ok_def header_line_def)

lemma reparse_roundtrip:
  "hs \<noteq> [] \<Longrightarrow> \<forall>kv \<in> set hs. header_entry_ok kv \<Longrightarrow>
   reparse_headers (join CRLF (map header_line hs)) = map Some hs"
proof (induction hs rule: list_nonempty_induct)
  case (single x)
  then show ?case
    by (simp add: reparse_headers_def split_crlf_line header_line_no_cr parse_header_line_entry)
next
  case (cons x xs)
  then obtain y ys where xs: "xs = y # ys" by (cases xs) auto
  from cons have "reparse_headers (join CRLF (map header_line xs)) = map Some xs" by simp
  with cons.prems show ?case
    by (simp add: xs reparse_headers_def split_crlf_append header_line_no_cr
        parse_header_line_entry)
qed

subsection \<open>Letting time pass\<close>

text \<open>Moving the clock touches the clock, the timers, the abort signals and the log, and
  logs timer callbacks only.\<close>

lemma readystate_calls_append:
  "readystate_calls (xs @ ys) = readystate_calls xs @ readystate_calls ys"
  by (induction xs rule: readystate_calls.induct) simp_all

lemma readystate_calls_timer_effects:
  "list_all timer_effect es \<Longrightarrow> readystate_calls es = []"
  by (induction es rule: readystate_calls.induct) simp_all

lemma fire_timer_shape:
  "\<exists>tm ab es. fire_timer w x = w\<lparr>timers := tm, aborted := ab, trace := trace w @ es\<rparr> \<and>
     list_all timer_effect es"
proof (cases "ontimeout w")
  case True
  then have "fire_timer w x =
      w\<lparr>timers := filter (\<lambda>(j, _). j \<noteq> fst x) (timers w),
        aborted := insert (fst x) (aborted w),
        trace := trace w @ [AbortCalled (fst x), Call_ontimeout]\<rparr>"
    by (simp add: fire_timer_def send_timer_def controller_abort_def emit_def)
  moreover have "list_all timer_effect [AbortCalled (fst x), Call_ontimeout]" by simp
  ultimately show ?thesis by blast
next
  case False
  then have "fire_timer w x =
      w\<lparr>timers := filter (\<lambda>(j, _). j \<noteq> fst x) (timers w),
        aborted := insert (fst x) (aborted w),
        trace := trace w @ [AbortCalled (fst x)]\<rparr>"
    by (simp add: fire_timer_def send_timer_def controller_abort_def emit_def)
  moreover have "list_all timer_effect [AbortCalled (fst x)]" by simp
  ultimately show ?thesis by blast
qed

lemma foldl_fire_timer_shape:
  "\<exists>tm ab es. foldl fire_timer w xs = w\<lparr>timers := tm, aborted := ab, trace := trace w @ es\<rparr> \<and>
     list_all timer_effect es"
proof (induction xs arbitrary: w)
  case Nil
  have "w = w\<lparr>timers := timers w, aborted := aborted w, trace := trace w @ []\<rparr>" by simp
  then have "foldl fire_timer w [] =
      w\<lparr>timers := timers w, aborted := aborted w, trace := trace w @ []\<rparr>" by simp
  moreover have "list_all timer_effect []" by simp
  ultimately show ?case by blast
next
  case (Cons x xs)
  obtain tm ab es where 1: "fire_timer w x = w\<lparr>timers := tm, aborted := ab, trace := trace w @ es\<rparr>"
    and 2: "list_all timer_effect es"
    using fire_timer_shape by blast
  obtain tm' ab' es' where 3: "foldl fire_timer (fire_timer w x) xs =
      (fire_timer w x)\<lparr>timers := tm', aborted := ab', trace := trace (fire_timer w x) @ es'\<rparr>"
    and 4: "list_all timer_effect es'"
    using Cons.IH by blast
  have "foldl fire_timer w (x # xs) = w\<lparr>timers := tm', aborted := ab', trace := trace w @ (es @ es')\<rparr>"
    by (simp add: 3) (simp add: 1)
  moreover have "list_all timer_effect (es @ es')" using 2 4 by simp
  ultimately show ?case by blast
qed

lemma advance_shape:
  "\<exists>n tm ab es. advance t w = w\<lparr>now := n, timers := tm, aborted := ab, trace := trace w @ es\<rparr> \<and>
     list_all timer_effect es"
proof (cases "t \<le> now w")
  case True
  have "w = w\<lparr>now := now w, timers := timers w, aborted := aborted w, trace := trace w @ []\<rparr>"
    by simp
  with True have "advance t w =
      w\<lparr>now := now w, timers := timers w, aborted := aborted w, trace := trace w @ []\<rparr>"
    by (simp add: advance_def)
  moreover have "list_all timer_effect []" by simp
  ultimately show ?thesis by blast
next
  case False
  obtain tm ab es where 1: "foldl fire_timer w (due_timers t w) =
      w\<lparr>timers := tm, aborted := ab, trace := trace w @ es\<rparr>" and 2: "list_all timer_effect es"
    using foldl_fire_timer_shape by blast
  have "advance t w = w\<lparr>now := t, timers := tm, aborted := ab, trace := trace w @ es\<rparr>"
    using False by (simp add: advance_def 1)
  with 2 show ?thesis by blast
qed

subsection \<open>Histories that never set the response type\<close>

lemma type_default_advance: "type_default (advance t w) = type_default w"
proof -
  obtain n tm ab es where "advance t w =
      w\<lparr>now := n, timers := tm, aborted := ab, trace := trace w @ es\<rparr>"
    using advance_shape by blast
  then show ?thesis by (simp add: type_default_def)
qed

lemma type_default_settle:
  assumes "type_default w" and "settle P i ph ev w = Some w1"
  shows "type_default w1"
  using assms(2,1)
  by (cases rule: settle.elims)
    (auto simp: type_default_def send_then_def send_catch_def send_done_def body_rejected_def
      clearTimeout_def setReadyState_def emit_def Let_def split: option.splits)

lemma type_default_get_response:
  "type_default w \<Longrightarrow> snd (get_response P w) = w"
  by (cases "computed w")
    (simp_all add: snd_get_response get_response_counted_def get_responseType_def
      type_default_def)

lemma type_default_perform:
  assumes "type_default w" and "\<not> sets_type a"
  shows "type_default (perform P w a)"
proof (cases a)
  case (Settle t i ev)
  show ?thesis
  proof (cases "deliver P t i ev w")
    case None
    with Settle assms show ?thesis by simp
  next
    case (Some w1)
    then have "settle P i (exchanges (advance t w) i) ev (advance t w) = Some w1"
      by (simp add: deliver_def Let_def)
    from type_default_settle [OF _ this] assms(1) have "type_default w1"
      by (simp add: type_default_advance)
    with Settle Some show ?thesis by simp
  qed
next
  case ReadResponse
  with assms show ?thesis by (simp add: type_default_get_response)
next
  case (Elapse t)
  with assms show ?thesis by (simp add: type_default_advance)
qed (use assms in \<open>auto simp: type_default_def xhr_open_def setRequestHeader_def send_def abort_def
      setTimeout_def controller_abort_def setReadyState_def emit_def Let_def
      split: option.splits\<close>)

lemma type_default_foldl:
  "type_default w \<Longrightarrow> \<forall>a \<in> set acts. \<not> sets_type a \<Longrightarrow> type_default (foldl (perform P) w acts)"
  by (induction acts arbitrary: w) (simp_all add: type_default_perform)

lemma type_default_run:
  "\<forall>a \<in> set acts. \<not> sets_type a \<Longrightarrow> type_default (run P acts)"
  unfolding run_def by (rule type_default_foldl) (simp_all add: type_default_def new_XMLHttpRequest_def)

lemma send_done_default_type:
  assumes "type_default w"
  shows "computed (send_done P i b w) =
      Some \<lparr>c_type = Some ''text'', c_blob = Some b,
            c_text = Some (text_decode P (blob_bytes b)), c_buffer = Some (blob_bytes b),
            c_json = (case computed w of None \<Rightarrow> None | Some c \<Rightarrow> c_json c)\<rparr>"
  using assms
  by (cases "computed w")
    (simp_all add: type_default_def send_done_def setReadyState_def emit_def Let_def)

lemma send_done_readyState: "readyState (send_done P i b w) = DONE"
  by (simp add: send_done_def setReadyState_def emit_def Let_def ready_defs)

subsection \<open>The order in which response and body appear, step by step\<close>

lemma full_inv_advance: "full_inv (advance t w) = full_inv w"
proof -
  obtain n tm ab es where "advance t w =
      w\<lparr>now := n, timers := tm, aborted := ab, trace := trace w @ es\<rparr>"
    using advance_shape by blast
  then show ?thesis
    by (simp add: full_inv_def populated_in_order_def body_reads_have_response_def
        split: option.split)
qed

lemma full_inv_send_then:
  "full_inv w \<Longrightarrow> full_inv (send_then i res w)"
  by (auto simp: full_inv_def populated_in_order_def body_reads_have_response_def
      send_then_def clearTimeout_def setReadyState_def emit_def Let_def ready_defs
      split: option.splits)

lemma full_inv_send_catch:
  "full_inv w \<Longrightarrow> full_inv (send_catch i e w)"
  by (auto simp: full_inv_def populated_in_order_def body_reads_have_response_def
      send_catch_def clearTimeout_def emit_def Let_def ready_defs
      split: option.splits)

lemma full_inv_body_rejected:
  "full_inv w \<Longrightarrow> full_inv (body_rejected i e w)"
  by (auto simp: full_inv_def populated_in_order_def body_reads_have_response_def
      body_rejected_def emit_def Let_def ready_defs
      split: option.splits)

lemma full_inv_blob_read:
  "full_inv w \<Longrightarrow> exchanges w i = Some AwaitBlob \<Longrightarrow>
   full_inv (w\<lparr>exchanges := (exchanges w)(i \<mapsto> AwaitBuffer b)\<rparr>)"
  by (auto simp: full_inv_def populated_in_order_def body_reads_have_response_def
      split: option.splits)

lemma send_done_response: "response (send_done P i b w) = response w"
  by (simp add: send_done_def setReadyState_def emit_def Let_def)

lemma send_done_exchanges: "exchanges (send_done P i b w) = (exchanges w)(i := None)"
  by (simp add: send_done_def setReadyState_def emit_def Let_def)

lemma send_done_complete:
  "\<exists>c. computed (send_done P i b w) = Some c \<and> body_complete c"
  by (cases "computed w")
    (simp_all add: send_done_def setReadyState_def emit_def Let_def body_complete_def
      split: option.splits)

lemma full_inv_send_done:
  assumes "full_inv w" and "exchanges w i = Some (AwaitBuffer b)"
  shows "full_inv (send_done P i b w)"
proof -
  from assms have r: "response w \<noteq> None"
    by (auto simp: full_inv_def body_reads_have_response_def)
  obtain c where c: "computed (send_done P i b w) = Some c" "body_complete c"
    using send_done_complete by blast
  show ?thesis
    unfolding full_inv_def populated_in_order_def body_reads_have_response_def
    using r by (simp add: send_done_response send_done_readyState send_done_exchanges c)
qed

lemma full_inv_settle:
  assumes "full_inv w" and "settle P i (exchanges w i) ev w = Some w1"
  shows "full_inv w1"
  using assms(2,1)
  by (cases rule: settle.elims)
    (auto simp: full_inv_send_then full_inv_send_catch full_inv_body_rejected
      full_inv_blob_read full_inv_send_done)

lemma get_response_writes:
  "snd (get_response P w) = w \<or>
   (\<exists>c j. computed w = Some c \<and>
      json_parse P (case c_text c of None \<Rightarrow> ''undefined'' | Some s \<Rightarrow> s) = Some j \<and>
      snd (get_response P w) = w\<lparr>computed := Some (c\<lparr>c_json := Some j\<rparr>)\<rparr>)"
proof (cases "computed w")
  case None
  then show ?thesis
    by (simp add: snd_get_response get_response_counted_def get_responseType_def)
next
  case (Some c)
  show ?thesis
  proof (cases "get_responseType w = ''json'' \<and> \<not> json_cached c")
    case False
    with Some show ?thesis
      by (auto simp: snd_get_response get_response_counted_def Let_def)
  next
    case True
    show ?thesis
    proof (cases "json_parse P (case c_text c of None \<Rightarrow> ''undefined'' | Some s \<Rightarrow> s)")
      case None
      with Some True show ?thesis
        by (simp add: snd_get_response get_response_counted_def Let_def)
    next
      case (Some j)
      with \<open>computed w = Some c\<close> True show ?thesis
        by (simp add: snd_get_response get_response_counted_def Let_def)
    qed
  qed
qed

lemma full_inv_get_response:
  assumes "json_parse P ''undefined'' = None" and "full_inv w"
  shows "full_inv (snd (get_response P w))"
proof -
  from get_response_writes [of P w] show ?thesis
  proof
    assume "snd (get_response P w) = w"
    with assms show ?thesis by simp
  next
    assume "\<exists>c j. computed w = Some c \<and>
      json_parse P (case c_text c of None \<Rightarrow> ''undefined'' | Some s \<Rightarrow> s) = Some j \<and>
      snd (get_response P w) = w\<lparr>computed := Some (c\<lparr>c_json := Some j\<rparr>)\<rparr>"
    then obtain c j where c: "computed w = Some c"
      and j: "json_parse P (case c_text c of None \<Rightarrow> ''undefined'' | Some s \<Rightarrow> s) = Some j"
      and w1: "snd (get_response P w) = w\<lparr>computed := Some (c\<lparr>c_json := Some j\<rparr>)\<rparr>"
      by blast
    from j assms(1) have "c_text c \<noteq> None" by (cases "c_text c") simp_all
    then have "body_present c" by (simp add: body_present_def)
    with assms(2) c have r: "response w \<noteq> None"
      by (simp add: full_inv_def populated_in_order_def)
    from assms(2) c r show ?thesis
      unfolding w1 full_inv_def populated_in_order_def body_reads_have_response_def
      by (simp add: body_complete_def)
  qed
qed

lemma populated_in_order_iff:
  "populated_in_order w \<longleftrightarrow>
     (\<forall>c. computed w = Some c \<longrightarrow> body_present c \<longrightarrow> response w \<noteq> None) \<and>
     (readyState w \<in> {2, 3, 4} \<longrightarrow> response w \<noteq> None) \<and>
     (readyState w = 4 \<longrightarrow> (\<exists>c. computed w = Some c \<and> body_complete c))"
  by (cases "computed w") (simp_all add: populated_in_order_def ready_defs)

lemma full_inv_weaken:
  assumes "full_inv w"
    and "computed w1 = computed w" and "response w1 = response w"
    and "readyState w1 = readyState w \<or> readyState w1 = OPENED"
    and "\<forall>i. exchanges w1 i = exchanges w i \<or> exchanges w1 i = Some AwaitHeaders \<or>
           exchanges w1 i = None"
  shows "full_inv w1"
proof -
  from assms(1) have p: "populated_in_order w" and b: "body_reads_have_response w"
    by (simp_all add: full_inv_def)
  from b assms(3,5) have "body_reads_have_response w1"
    unfolding body_reads_have_response_def by metis
  moreover have "populated_in_order w1"
  proof (cases "readyState w1 = readyState w")
    case True
    with p show ?thesis by (simp add: populated_in_order_iff assms(2,3))
  next
    case False
    with assms(4) have "readyState w1 = 1" by (simp add: ready_defs)
    with p show ?thesis by (simp add: populated_in_order_iff assms(2,3))
  qed
  ultimately show ?thesis by (simp add: full_inv_def)
qed

lemma full_inv_overrideMimeType: "full_inv w \<Longrightarrow> full_inv (overrideMimeType t w)"
  by (cases "computed w")
    (simp_all add: full_inv_def populated_in_order_def body_reads_have_response_def
      overrideMimeType_def body_present_def body_complete_def)

lemma full_inv_open:
  assumes "full_inv w"
  shows "full_inv (snd (xhr_open P m u w))"
  by (rule full_inv_weaken [OF assms])
    (simp_all add: xhr_open_def setReadyState_def emit_def Let_def ready_defs
      split: option.split)

lemma full_inv_setRequestHeader:
  assumes "full_inv w"
  shows "full_inv (snd (setRequestHeader n v w))"
  by (rule full_inv_weaken [OF assms])
    (simp_all add: setRequestHeader_def split: option.split)

lemma full_inv_send:
  assumes "full_inv w"
  shows "full_inv (snd (send body w))"
  by (rule full_inv_weaken [OF assms])
    (simp_all add: send_def setTimeout_def emit_def Let_def split: option.split)

lemma full_inv_abort:
  assumes "full_inv w"
  shows "full_inv (snd (abort w))"
  by (rule full_inv_weaken [OF assms])
    (simp_all add: abort_def controller_abort_def emit_def split: option.split)

lemma full_inv_assign:
  "full_inv w \<Longrightarrow> full_inv (w\<lparr>timeout := d\<rparr>)"
  "full_inv w \<Longrightarrow> full_inv (w\<lparr>onreadystatechange := h\<rparr>)"
  "full_inv w \<Longrightarrow> full_inv (w\<lparr>onload := h\<rparr>)"
  "full_inv w \<Longrightarrow> full_inv (w\<lparr>onerror := h\<rparr>)"
  "full_inv w \<Longrightarrow> full_inv (w\<lparr>onloadstart := h\<rparr>)"
  "full_inv w \<Longrightarrow> full_inv (w\<lparr>ontimeout := h\<rparr>)"
  by (erule full_inv_weaken; simp)+

lemma full_inv_perform:
  assumes "json_parse P ''undefined'' = None" and "full_inv w"
  shows "full_inv (perform P w a)"
proof (cases a)
  case (Settle t i ev)
  show ?thesis
  proof (cases "deliver P t i ev w")
    case None
    with Settle assms show ?thesis by simp
  next
    case (Some w1)
    then have "settle P i (exchanges (advance t w) i) ev (advance t w) = Some w1"
      by (simp add: deliver_def Let_def)
    from full_inv_settle [OF _ this] assms(2) have "full_inv w1"
      by (simp add: full_inv_advance)
    with Settle Some show ?thesis by simp
  qed
next
  case ReadResponse
  with assms show ?thesis by (simp add: full_inv_get_response)
next
  case (Elapse t)
  with assms show ?thesis by (simp add: full_inv_advance)
next
  case (Open m u)
  with assms show ?thesis by (simp add: full_inv_open)
next
  case (OverrideMimeType t)
  with assms show ?thesis by (simp add: full_inv_overrideMimeType)
next
  case (SetRequestHeader n v)
  with assms show ?thesis by (simp add: full_inv_setRequestHeader)
next
  case (Send body)
  with assms show ?thesis by (simp add: full_inv_send)
next
  case Abort
  with assms show ?thesis by (simp add: full_inv_abort)
qed (use assms in \<open>simp_all add: full_inv_assign\<close>)

lemma full_inv_foldl:
  "json_parse P ''undefined'' = None \<Longrightarrow> full_inv w \<Longrightarrow> full_inv (foldl (perform P) w acts)"
  by (induction acts arbitrary: w) (simp_all add: full_inv_perform)

lemma full_inv_run:
  "json_parse P ''undefined'' = None \<Longrightarrow> full_inv (run P acts)"
  unfolding run_def
  by (rule full_inv_foldl)
    (simp_all add: full_inv_def populated_in_order_def body_reads_have_response_def
      new_XMLHttpRequest_def ready_defs)

subsection \<open>What \<open>send\<close> and its \<open>.catch\<close> callback do\<close>

lemma send_with_draft:
  assumes "draft w = Some d"
  shows "fst (send body w) = Returned ()"
    and "exchanges (snd (send body w)) (fresh w) = Some AwaitHeaders"
    and "controller (snd (send body w)) = Some (fresh w)"
    and "trace (snd (send body w)) = trace w @
           [SetTimeoutCalled (fresh w) (nat (timeout w)),
            FetchCalled \<lparr>f_method = d_method d, f_url = d_url d, f_headers = d_headers d,
                         f_body = body, f_signal = fresh w\<rparr>]"
  using assms by (simp_all add: send_def setTimeout_def emit_def Let_def)

lemma send_catch_effect:
  "trace (send_catch i e w) =
     trace w @ ClearTimeoutCalled i # (if onerror w then [Call_onerror e] else [])"
  "i \<notin> fst ` set (timers (send_catch i e w))"
  "exchanges (send_catch i e w) = (exchanges w)(i := None)"
  "readyState (send_catch i e w) = readyState w"
  "response (send_catch i e w) = response w"
  "computed (send_catch i e w) = computed w"
  by (auto simp: send_catch_def clearTimeout_def emit_def Let_def)

subsection \<open>A timer that is due fires\<close>

lemma fire_timer_effect:
  "aborted (fire_timer w x) = insert (fst x) (aborted w)"
  "trace (fire_timer w x) =
     trace w @ AbortCalled (fst x) # (if ontimeout w then [Call_ontimeout] else [])"
  "ontimeout (fire_timer w x) = ontimeout w"
  by (simp_all add: fire_timer_def send_timer_def controller_abort_def emit_def Let_def)

lemma foldl_fire_timer_keeps:
  "aborted w \<subseteq> aborted (foldl fire_timer w xs) \<and>
   ontimeout (foldl fire_timer w xs) = ontimeout w \<and>
   (\<exists>es. trace (foldl fire_timer w xs) = trace w @ es)"
proof (induction xs arbitrary: w)
  case Nil
  show ?case by simp
next
  case (Cons x xs)
  from Cons.IH [of "fire_timer w x"] show ?case
    by (auto simp: fire_timer_effect)
qed

lemma foldl_fire_timer_fires:
  assumes "x \<in> set xs"
  shows "fst x \<in> aborted (foldl fire_timer w xs) \<and>
     (\<exists>pre post. trace (foldl fire_timer w xs) =
        pre @ AbortCalled (fst x) # (if ontimeout w then [Call_ontimeout] else []) @ post)"
  using assms
proof (induction xs arbitrary: w)
  case Nil
  then show ?case by simp
next
  case (Cons a xs)
  show ?case
  proof (cases "x = a")
    case True
    from foldl_fire_timer_keeps [of "fire_timer w a" xs]
    obtain es where k: "aborted (fire_timer w a) \<subseteq> aborted (foldl fire_timer (fire_timer w a) xs)"
      and e: "trace (foldl fire_timer (fire_timer w a) xs) = trace (fire_timer w a) @ es"
      by blast
    from k have "fst x \<in> aborted (foldl fire_timer w (a # xs))"
      using True by (auto simp: fire_timer_effect)
    moreover have "trace (foldl fire_timer w (a # xs)) =
        trace w @ AbortCalled (fst x) # (if ontimeout w then [Call_ontimeout] else []) @ es"
      using True e by (simp add: fire_timer_effect)
    ultimately show ?thesis by blast
  next
    case False
    with Cons.prems have "x \<in> set xs" by simp
    from Cons.IH [OF this, of "fire_timer w a"]
    obtain pre post where "fst x \<in> aborted (foldl fire_timer (fire_timer w a) xs)"
      and "trace (foldl fire_timer (fire_timer w a) xs) =
        pre @ AbortCalled (fst x) # (if ontimeout w then [Call_ontimeout] else []) @ post"
      by (auto simp: fire_timer_effect)
    then show ?thesis by auto
  qed
qed

lemma due_timer_fires:
  assumes "(i, d) \<in> set (timers w)" and "d < t" and "now w < t"
  shows "i \<in> aborted (advance t w) \<and>
     (\<exists>pre post. trace (advance t w) =
        pre @ AbortCalled i # (if ontimeout w then [Call_ontimeout] else []) @ post)"
proof -
  from assms(1,2) have "(i, d) \<in> set (due_timers t w)"
    by (simp add: due_timers_def)
  from foldl_fire_timer_fires [OF this, of w] assms(3) show ?thesis
    by (simp add: advance_def)
qed

text \<open>Whatever the timeout, zero included: once the clock passes the instant of \<open>send\<close>
  plus the timeout while the timer is armed, the controller of that \<open>send\<close> is aborted
  and \<open>ontimeout\<close> is called right after.\<close>

lemma timeout_fires_when_exchange_is_slower:
  assumes "draft w = Some d" and "now w + nat (timeout w) < t"
  shows "fresh w \<in> aborted (advance t (snd (send body w))) \<and>
     (\<exists>pre post. trace (advance t (snd (send body w))) =
        pre @ AbortCalled (fresh w) # (if ontimeout w then [Call_ontimeout] else []) @ post)"
proof -
  let ?w2 = "snd (send body w)"
  have 1: "(fresh w, now w + nat (timeout w)) \<in> set (timers ?w2)"
    and 2: "now ?w2 = now w" and 3: "ontimeout ?w2 = ontimeout w"
    using assms(1) by (simp_all add: send_def setTimeout_def emit_def Let_def)
  from due_timer_fires [OF 1 assms(2)] assms(2) show ?thesis
    by (simp add: 2 3)
qed

subsection \<open>Reading a JSON response twice\<close>

text \<open>With an empty cache and a text that parses to a value other than \<open>null\<close>, the first
  read runs \<open>JSON.parse\<close> once and stores the value; the second read returns the stored
  value without parsing.\<close>

lemma json_read_twice:
  assumes "computed w = Some c" and "c_type c = Some ''json''" and "\<not> json_cached c"
    and "c_text c = Some s" and "json_parse P s = Some j" and "j \<noteq> JNull"
  shows "get_response_counted P w =
           ((Returned (VJson j), 1), w\<lparr>computed := Some (c\<lparr>c_json := Some j\<rparr>)\<rparr>) \<and>
         get_response_counted P (w\<lparr>computed := Some (c\<lparr>c_json := Some j\<rparr>)\<rparr>) =
           ((Returned (VJson j), 0), w\<lparr>computed := Some (c\<lparr>c_json := Some j\<rparr>)\<rparr>)"
proof
  show "get_response_counted P w =
      ((Returned (VJson j), 1), w\<lparr>computed := Some (c\<lparr>c_json := Some j\<rparr>)\<rparr>)"
    using assms by (simp add: get_response_counted_def get_responseType_def)
  have "json_cached (c\<lparr>c_json := Some j\<rparr>)" using assms(6) by (simp add: json_cached_iff)
  then show "get_response_counted P (w\<lparr>computed := Some (c\<lparr>c_json := Some j\<rparr>)\<rparr>) =
      ((Returned (VJson j), 0), w\<lparr>computed := Some (c\<lparr>c_json := Some j\<rparr>)\<rparr>)"
    using assms(2) by (simp add: get_response_counted_def get_responseType_def opt_value_def)
qed


text \<open>A body that is the text \<open>null\<close> is parsed again on every read.\<close>

lemma null_json_parsed_on_every_read:
  "fst (get_response_counted example_platform (run example_platform null_json_exchange)) =
     (Returned (VJson JNull), 1) \<and>
   fst (get_response_counted example_platform
     (snd (get_response_counted example_platform
        (run example_platform null_json_exchange)))) = (Returned (VJson JNull), 1)"
  by code_simp

subsection \<open>The repository's test\<close>

text \<open>\<open>Ready State Callbacks\<close>: with a handler assigned, \<open>open\<close> calls it once.\<close>

lemma ready_state_callbacks_test:
  "length (readystate_calls (trace (run example_platform
     [AssignOnreadystatechange True, Open ''GET'' ''https://foo.bar'']))) = 1"
  by code_simp

subsection \<open>Setting a header in a header list\<close>

lemma set_first_other:
  "byteLowerCase k \<noteq> ln \<Longrightarrow>
   map_of (map (\<lambda>kx. (byteLowerCase (fst kx), snd kx)) (set_first ln v added hs))
     (byteLowerCase k) =
   map_of (map (\<lambda>kx. (byteLowerCase (fst kx), snd kx)) hs) (byteLowerCase k)"
  by (induction hs arbitrary: added) auto

lemma set_first_same:
  "header_list_contains ln hs \<Longrightarrow>
   map_of (map (\<lambda>kx. (byteLowerCase (fst kx), snd kx)) (set_first ln v False hs)) ln = Some v"
  by (induction hs) (auto simp: header_list_contains_def)

lemma not_contains_lookup:
  "\<not> header_list_contains ln hs \<Longrightarrow>
   map_of (map (\<lambda>kx. (byteLowerCase (fst kx), snd kx)) hs) ln = None"
  by (induction hs) (auto simp: header_list_contains_def)

lemma header_get_set_same: "header_get n (header_list_set n v hs) = Some v"
proof (cases "header_list_contains (byteLowerCase n) hs")
  case True
  then show ?thesis by (simp add: header_get_def header_list_set_def set_first_same)
next
  case False
  then show ?thesis
    by (simp add: header_get_def header_list_set_def map_add_def not_contains_lookup)
qed

lemma header_get_set_other:
  assumes "byteLowerCase k \<noteq> byteLowerCase n"
  shows "header_get k (header_list_set n v hs) = header_get k hs"
proof (cases "header_list_contains (byteLowerCase n) hs")
  case True
  with assms show ?thesis by (simp add: header_get_def header_list_set_def set_first_other)
next
  case False
  with assms show ?thesis
    by (simp add: header_get_def header_list_set_def map_add_def split: option.split)
qed

text \<open>The \<open>.catch\<close> callback, and \<open>send\<close> without a draft.\<close>

lemma fetch_rejection_reaches_onerror:
  "(draft w = Some d \<longrightarrow>
      fst (send body w) = Returned () \<and>
      exchanges (snd (send body w)) (fresh w) = Some AwaitHeaders) \<and>
   (exchanges w i = Some AwaitHeaders \<longrightarrow>
      (\<exists>w1. deliver P t i (FetchRejected e) w = Some w1 \<and>
         trace w1 = trace (advance t w) @
           ClearTimeoutCalled i # (if onerror w then [Call_onerror e] else []) \<and>
         i \<notin> fst ` set (timers w1) \<and>
         exchanges w1 i = None \<and>
         readyState w1 = readyState w \<and> response w1 = response w \<and>
         computed w1 = computed w))"
proof (intro conjI impI)
  assume "draft w = Some d"
  then show "fst (send body w) = Returned ()"
    and "exchanges (snd (send body w)) (fresh w) = Some AwaitHeaders"
    by (rule send_with_draft)+
next
  assume ex: "exchanges w i = Some AwaitHeaders"
  obtain n tm ab es where a: "advance t w =
      w\<lparr>now := n, timers := tm, aborted := ab, trace := trace w @ es\<rparr>"
    using advance_shape by blast
  let ?w1 = "send_catch i e (advance t w)"
  have d: "deliver P t i (FetchRejected e) w = Some ?w1"
    using ex by (simp add: deliver_def a)
  have "onerror (advance t w) = onerror w" "readyState (advance t w) = readyState w"
    "response (advance t w) = response w" "computed (advance t w) = computed w"
    by (simp_all add: a)
  with d show "\<exists>w1. deliver P t i (FetchRejected e) w = Some w1 \<and>
         trace w1 = trace (advance t w) @
           ClearTimeoutCalled i # (if onerror w then [Call_onerror e] else []) \<and>
         i \<notin> fst ` set (timers w1) \<and>
         exchanges w1 i = None \<and>
         readyState w1 = readyState w \<and> response w1 = response w \<and>
         computed w1 = computed w"
    by (simp add: send_catch_effect)
qed


lemma send_without_open_throws:
  "fst (send None new_XMLHttpRequest) = Threw TypeError \<and>
   timers (snd (send None new_XMLHttpRequest)) = [(0, 0)]"
  by (simp add: send_def setTimeout_def emit_def new_XMLHttpRequest_def)

subsection \<open>What stays of an earlier exchange\<close>










section \<open>Claims\<close>

subsection \<open>C8: \<open>setRequestHeader\<close>\<close>

text \<open>
  C8 (amended). When the ready state is not \<open>OPENED\<close> (before \<open>open\<close>, say),
  \<open>setRequestHeader\<close> returns without an error and leaves the whole instance as it was,
  so a later \<open>send\<close> does what it would have done without the call. When the ready state
  is \<open>OPENED\<close>, the call hands the pair to \<open>Headers.set\<close> of the draft's header
  collection. For a name that is an HTTP token and a value that, stripped of surrounding
  whitespace, holds no NUL, LF or CR, it returns, the collection is updated by the
  header-list \<open>set\<close> (the name, compared case-insensitively, now maps to the stripped
  value; every other name maps to what it did), and nothing else changes. For any other
  name or value it throws a \<open>TypeError\<close> and changes nothing.
\<close>

theorem setRequestHeader_only_when_opened:
  "(readyState w \<noteq> OPENED \<longrightarrow>
      setRequestHeader n v w = (Returned (), w) \<and>
      send body (snd (setRequestHeader n v w)) = send body w) \<and>
   (readyState w = OPENED \<longrightarrow> draft w = Some d \<longrightarrow>
      (is_header_name n \<and> is_header_value (normalizeHeaderValue v) \<longrightarrow>
         setRequestHeader n v w =
           (Returned (),
            w\<lparr>draft := Some (d\<lparr>d_headers :=
                 header_list_set n (normalizeHeaderValue v) (d_headers d)\<rparr>)\<rparr>) \<and>
         header_get n (header_list_set n (normalizeHeaderValue v) (d_headers d)) =
           Some (normalizeHeaderValue v) \<and>
         (\<forall>k. byteLowerCase k \<noteq> byteLowerCase n \<longrightarrow>
            header_get k (header_list_set n (normalizeHeaderValue v) (d_headers d)) =
              header_get k (d_headers d))) \<and>
      (\<not> (is_header_name n \<and> is_header_value (normalizeHeaderValue v)) \<longrightarrow>
         setRequestHeader n v w = (Threw TypeError, w)))"
  by (simp add: setRequestHeader_def Headers_set_def Let_def header_get_set_same
      header_get_set_other)

theorem setRequestHeader_only_when_opened_witness:
  "readyState new_XMLHttpRequest \<noteq> OPENED \<and>
   setRequestHeader ''X-A'' ''1'' new_XMLHttpRequest = (Returned (), new_XMLHttpRequest) \<and>
   readyState (run example_platform opened_example) = OPENED \<and>
   is_header_name ''X-A'' \<and> normalizeHeaderValue '' 1 '' = ''1'' \<and> is_header_value ''1'' \<and>
   draft (snd (setRequestHeader ''X-A'' '' 1 '' (run example_platform opened_example))) =
     Some \<lparr>d_method = ''GET'', d_url = ''https://example.test/x'',
           d_headers = [(''X-A'', ''1'')]\<rparr> \<and>
   draft (snd (setRequestHeader ''x-a'' ''2''
      (snd (setRequestHeader ''X-A'' '' 1 '' (run example_platform opened_example))))) =
     Some \<lparr>d_method = ''GET'', d_url = ''https://example.test/x'',
           d_headers = [(''X-A'', ''2'')]\<rparr>"
proof -
  let ?w = "run example_platform opened_example"
  let ?d = "\<lparr>d_method = ''GET'', d_url = ''https://example.test/x'', d_headers = []\<rparr>"
  let ?w1 = "?w\<lparr>draft := Some (?d\<lparr>d_headers := [(''X-A'', ''1'')]\<rparr>)\<rparr>"
  have a: "readyState new_XMLHttpRequest \<noteq> OPENED"
    by (simp add: new_XMLHttpRequest_def OPENED_def)
  have b: "readyState ?w = OPENED" by code_simp
  have c: "draft ?w = Some ?d" by code_simp
  have n: "is_header_name ''X-A''" "is_header_name ''x-a''" by code_simp+
  have v: "normalizeHeaderValue '' 1 '' = ''1''" "normalizeHeaderValue ''2'' = ''2''"
    by code_simp+
  have ok: "is_header_value ''1''" "is_header_value ''2''" by code_simp+
  have s1: "header_list_set ''X-A'' ''1'' [] = [(''X-A'', ''1'')]" by code_simp
  have s2: "header_list_set ''x-a'' ''2'' [(''X-A'', ''1'')] = [(''X-A'', ''2'')]" by code_simp
  from setRequestHeader_only_when_opened [of new_XMLHttpRequest "''X-A''" "''1''" None ?d] a
  have 1: "setRequestHeader ''X-A'' ''1'' new_XMLHttpRequest = (Returned (), new_XMLHttpRequest)"
    by simp
  from setRequestHeader_only_when_opened [of ?w "''X-A''" "'' 1 ''" None ?d] b c n v ok
  have 2: "setRequestHeader ''X-A'' '' 1 '' ?w = (Returned (), ?w1)"
    by (simp add: s1)
  have b1: "readyState ?w1 = OPENED" using b by simp
  from setRequestHeader_only_when_opened [of ?w1 "''x-a''" "''2''" None
      "?d\<lparr>d_headers := [(''X-A'', ''1'')]\<rparr>"] b1 n v ok
  have 3: "setRequestHeader ''x-a'' ''2'' ?w1 =
      (Returned (), ?w1\<lparr>draft := Some (?d\<lparr>d_headers := [(''X-A'', ''2'')]\<rparr>)\<rparr>)"
    by (simp add: s2)
  show ?thesis using a 1 b n(1) v(1) ok(1) 2 3 by simp
qed

theorem setRequestHeader_invalid_name_counterexample:
  "readyState (run example_platform opened_example) = OPENED \<and>
   setRequestHeader ''bad name'' ''1'' (run example_platform opened_example) =
     (Threw TypeError, run example_platform opened_example) \<and>
   draft (run example_platform opened_example) =
     Some \<lparr>d_method = ''GET'', d_url = ''https://example.test/x'', d_headers = []\<rparr>"
proof -
  let ?w = "run example_platform opened_example"
  have b: "readyState ?w = OPENED" by code_simp
  have c: "draft ?w =
      Some \<lparr>d_method = ''GET'', d_url = ''https://example.test/x'', d_headers = []\<rparr>"
    by code_simp
  have n: "\<not> is_header_name ''bad name''" by code_simp
  show ?thesis using b c n
    by (simp add: setRequestHeader_def Headers_set_def Let_def)
qed

subsection \<open>C9: the \<open>response\<close> and \<open>responseXML\<close> getters\<close>



subsection \<open>C10: \<open>open\<close> after an exchange has completed\<close>





subsection \<open>C5: \<open>getAllResponseHeaders\<close>\<close>

text \<open>
  C5 (amended). Once the response is stored, \<open>getAllResponseHeaders\<close> returns one
  \<open>name: value\<close> line per entry of the header collection, in its iteration order, joined
  by CRLF. When the collection is not empty (and its entries are what \<open>Headers\<close> yields:
  token names, no carriage return), splitting that output on CRLF and reading each line
  as \<open>name: value\<close> gives back exactly the entries, in order. With no header at all the
  output is the empty string, which splits into one empty line that is no header.
\<close>

theorem getAllResponseHeaders_lines:
  assumes "response w = Some r"
  shows "getAllResponseHeaders w = Returned (join CRLF (map header_line (r_headers r))) \<and>
         (r_headers r \<noteq> [] \<longrightarrow> (\<forall>kv \<in> set (r_headers r). header_entry_ok kv) \<longrightarrow>
            reparse_headers (join CRLF (map header_line (r_headers r))) =
              map Some (r_headers r))"
  using assms by (simp add: getAllResponseHeaders_def reparse_roundtrip)

theorem getAllResponseHeaders_lines_witness:
  "response (run example_platform example_exchange) = Some example_response \<and>
   r_headers example_response \<noteq> [] \<and>
   list_all header_entry_ok (r_headers example_response) \<and>
   getAllResponseHeaders (run example_platform example_exchange) =
     Returned (''content-length: 3'' @ CRLF @ ''content-type: text/plain'') \<and>
   reparse_headers (''content-length: 3'' @ CRLF @ ''content-type: text/plain'') =
     [Some (''content-length'', ''3''), Some (''content-type'', ''text/plain'')]"
proof -
  have ok: "\<forall>kv \<in> set (r_headers example_response). header_entry_ok kv"
    by (simp add: example_response_def header_entry_ok_def)
  have ne: "r_headers example_response \<noteq> []" by (simp add: example_response_def)
  have j: "join CRLF (map header_line (r_headers example_response)) =
      ''content-length: 3'' @ CRLF @ ''content-type: text/plain''"
    by (simp add: example_response_def header_line_def)
  have m: "map Some (r_headers example_response) =
      [Some (''content-length'', ''3''), Some (''content-type'', ''text/plain'')]"
    by (simp add: example_response_def)
  have ok': "list_all header_entry_ok (r_headers example_response)"
    using ok by (simp add: list_all_iff)
  from getAllResponseHeaders_lines [OF example_done_response] ok ok' ne
  show ?thesis unfolding j m by (simp add: example_done_response)
qed

theorem getAllResponseHeaders_empty_counterexample:
  "response (run example_platform bare_exchange) = Some bare_response \<and>
   getAllResponseHeaders (run example_platform bare_exchange) = Returned [] \<and>
   reparse_headers [] = [None] \<and>
   reparse_headers [] \<noteq> map Some (r_headers bare_response)"
proof -
  have r: "response (run example_platform bare_exchange) = Some bare_response"
    by code_simp
  show ?thesis
    by (simp add: r getAllResponseHeaders_def bare_response_def reparse_headers_def)
qed

subsection \<open>C3: the default response type\<close>

text \<open>
  C3. In a history that never sets the response type, the \<open>responseType\<close> getter returns
  \<open>text\<close> at every moment, before and after completion; and when the last step of an
  exchange is taken (the buffer of the blob that was read arrives), the ready state is
  \<open>DONE\<close>, \<open>responseText\<close> is the bytes of that blob decoded as text, and the \<open>response\<close>
  getter returns that same string and leaves the instance as it is.
\<close>

theorem default_responseType_is_text:
  assumes "\<forall>a \<in> set acts. \<not> sets_type a"
  shows "get_responseType (run P acts) = ''text'' \<and>
         (exchanges (run P acts) i = Some (AwaitBuffer b) \<longrightarrow>
            (\<exists>w5. deliver P t i BufferRead (run P acts) = Some w5 \<and>
               readyState w5 = DONE \<and>
               get_responseType w5 = ''text'' \<and>
               get_responseText w5 = Some (text_decode P (blob_bytes b)) \<and>
               get_response P w5 = (Returned (VString (text_decode P (blob_bytes b))), w5)))"
proof
  let ?w = "run P acts"
  have td: "type_default ?w" by (rule type_default_run [OF assms])
  then show "get_responseType ?w = ''text''"
    by (simp add: type_default_def get_responseType_def split: option.splits)
  show "exchanges ?w i = Some (AwaitBuffer b) \<longrightarrow>
       (\<exists>w5. deliver P t i BufferRead ?w = Some w5 \<and> readyState w5 = DONE \<and>
             get_responseType w5 = ''text'' \<and>
             get_responseText w5 = Some (text_decode P (blob_bytes b)) \<and>
             get_response P w5 = (Returned (VString (text_decode P (blob_bytes b))), w5))"
  proof
    assume ex: "exchanges ?w i = Some (AwaitBuffer b)"
    obtain n tm ab es where a: "advance t ?w =
        ?w\<lparr>now := n, timers := tm, aborted := ab, trace := trace ?w @ es\<rparr>"
      using advance_shape by blast
    let ?w5 = "send_done P i b (advance t ?w)"
    have d: "deliver P t i BufferRead ?w = Some ?w5"
      using ex by (simp add: deliver_def a)
    have "type_default (advance t ?w)" using td by (simp add: type_default_advance)
    from send_done_default_type [OF this]
    obtain j where c: "computed ?w5 =
        Some \<lparr>c_type = Some ''text'', c_blob = Some b,
              c_text = Some (text_decode P (blob_bytes b)), c_buffer = Some (blob_bytes b),
              c_json = j\<rparr>"
      by blast
    have "get_responseType ?w5 = ''text''" by (simp add: get_responseType_def c)
    moreover have "get_responseText ?w5 = Some (text_decode P (blob_bytes b))"
      by (simp add: get_responseText_def c)
    moreover have "get_response P ?w5 = (Returned (VString (text_decode P (blob_bytes b))), ?w5)"
      using getter_text [OF c] by (simp add: opt_value_def)
    ultimately show "\<exists>w5. deliver P t i BufferRead ?w = Some w5 \<and> readyState w5 = DONE \<and>
             get_responseType w5 = ''text'' \<and>
             get_responseText w5 = Some (text_decode P (blob_bytes b)) \<and>
             get_response P w5 = (Returned (VString (text_decode P (blob_bytes b))), w5)"
      using d send_done_readyState by blast
  qed
qed

theorem default_responseType_is_text_witness:
  "list_all (\<lambda>a. \<not> sets_type a) example_before_done \<and>
   exchanges (run example_platform example_before_done) 0 = Some (AwaitBuffer blob_1) \<and>
   text_decode example_platform (blob_bytes blob_1) = ''[1]'' \<and>
   get_responseType (run example_platform example_before_done) = ''text'' \<and>
   (\<exists>w5. deliver example_platform 13 0 BufferRead (run example_platform example_before_done) =
            Some w5 \<and>
         readyState w5 = DONE \<and> get_responseType w5 = ''text'' \<and>
         get_responseText w5 = Some ''[1]'' \<and>
         get_response example_platform w5 = (Returned (VString ''[1]''), w5))"
proof -
  have a: "\<forall>a \<in> set example_before_done. \<not> sets_type a"
    by (simp add: example_before_done_def example_exchange_def)
  have b: "exchanges (run example_platform example_before_done) 0 = Some (AwaitBuffer blob_1)"
    by code_simp
  have c: "text_decode example_platform (blob_bytes blob_1) = ''[1]''"
    by code_simp
  have a': "list_all (\<lambda>a. \<not> sets_type a) example_before_done"
    using a by (simp add: list_all_iff)
  from default_responseType_is_text [OF a, of example_platform 0 blob_1 13] a' b c
  show ?thesis by simp
qed


subsection \<open>C1: the order of the ready-state callbacks\<close>

text \<open>
  C1. With a handler in \<open>onreadystatechange\<close>, \<open>open\<close> (with a URL that parses) followed
  by \<open>send\<close> and an exchange that succeeds (the \<open>fetch\<close> promise, \<open>res.blob()\<close> and
  \<open>blob.arrayBuffer()\<close> are fulfilled, at any instants) calls the handler exactly four
  times, seeing \<open>OPENED\<close>, \<open>HEADERS_RECEIVED\<close>, \<open>LOADING\<close>, \<open>DONE\<close> in this order. The
  calls for \<open>HEADERS_RECEIVED\<close> and \<open>LOADING\<close> are made one right after the other in the
  same turn of the event loop, the one that runs the \<open>.then\<close> callback, and \<open>DONE\<close> comes
  in a later turn.
\<close>

theorem readystatechange_in_order:
  assumes u: "url_parse P u = Some parsed" and h: "onreadystatechange w"
  shows "\<exists>w3 w4 w5.
           deliver P t1 (fresh w) (FetchResolved res)
             (snd (send body (snd (xhr_open P m u w)))) = Some w3 \<and>
           deliver P t2 (fresh w) (BlobRead b) w3 = Some w4 \<and>
           deliver P t3 (fresh w) BufferRead w4 = Some w5 \<and>
           readystate_calls (trace w5) =
             readystate_calls (trace w) @ [OPENED, HEADERS_RECEIVED, LOADING, DONE] \<and>
           trace w3 =
             trace (advance t1 (snd (send body (snd (xhr_open P m u w))))) @
               [ClearTimeoutCalled (fresh w), Call_onreadystatechange HEADERS_RECEIVED,
                Call_onreadystatechange LOADING] \<and>
           readyState w5 = DONE"
proof -
  let ?i = "fresh w"
  let ?w1 = "snd (xhr_open P m u w)"
  let ?w2 = "snd (send body ?w1)"
  have w1: "?w1 = w\<lparr>readyState := 1,
        draft := Some \<lparr>d_method = m, d_url = parsed, d_headers = []\<rparr>,
        trace := trace w @ [Call_onreadystatechange 1]\<rparr>"
    using u h by (simp add: xhr_open_def setReadyState_def emit_def ready_defs)
  have w2_ex: "exchanges ?w2 ?i = Some AwaitHeaders"
    and w2_h: "onreadystatechange ?w2"
    and w2_tr: "readystate_calls (trace ?w2) = readystate_calls (trace w) @ [1]"
    using h by (simp_all add: w1 send_def setTimeout_def emit_def Let_def readystate_calls_append)
  obtain n1 tm1 ab1 es1 where a1: "advance t1 ?w2 =
      ?w2\<lparr>now := n1, timers := tm1, aborted := ab1, trace := trace ?w2 @ es1\<rparr>"
    and e1: "list_all timer_effect es1"
    using advance_shape by blast
  let ?w3 = "send_then ?i res (advance t1 ?w2)"
  have d3: "deliver P t1 ?i (FetchResolved res) ?w2 = Some ?w3"
    by (simp add: deliver_def a1 w2_ex)
  have w3_tr: "trace ?w3 = trace (advance t1 ?w2) @
      [ClearTimeoutCalled ?i, Call_onreadystatechange 2, Call_onreadystatechange 3]"
    using w2_h by (simp add: a1 send_then_def clearTimeout_def setReadyState_def emit_def
        ready_defs Let_def)
  have w3_ex: "exchanges ?w3 ?i = Some AwaitBlob" and w3_h: "onreadystatechange ?w3"
    using w2_h by (simp_all add: a1 send_then_def clearTimeout_def setReadyState_def emit_def
        ready_defs Let_def)
  have w3_rs: "readystate_calls (trace ?w3) = readystate_calls (trace w) @ [1, 2, 3]"
    using w2_tr e1
    by (simp add: w3_tr) (simp add: a1 readystate_calls_append readystate_calls_timer_effects)
  obtain n2 tm2 ab2 es2 where a2: "advance t2 ?w3 =
      ?w3\<lparr>now := n2, timers := tm2, aborted := ab2, trace := trace ?w3 @ es2\<rparr>"
    and e2: "list_all timer_effect es2"
    using advance_shape by blast
  let ?w4 = "(advance t2 ?w3)\<lparr>exchanges := (exchanges (advance t2 ?w3))(?i \<mapsto> AwaitBuffer b)\<rparr>"
  have d4: "deliver P t2 ?i (BlobRead b) ?w3 = Some ?w4"
    by (simp add: deliver_def a2 w3_ex)
  have w4_ex: "exchanges ?w4 ?i = Some (AwaitBuffer b)" and w4_h: "onreadystatechange ?w4"
    and w4_rs: "readystate_calls (trace ?w4) = readystate_calls (trace w) @ [1, 2, 3]"
    using w3_h w3_rs e2
    by (simp_all add: a2 readystate_calls_append readystate_calls_timer_effects)
  obtain n3 tm3 ab3 es3 where a3: "advance t3 ?w4 =
      ?w4\<lparr>now := n3, timers := tm3, aborted := ab3, trace := trace ?w4 @ es3\<rparr>"
    and e3: "list_all timer_effect es3"
    using advance_shape by blast
  let ?w5 = "send_done P ?i b (advance t3 ?w4)"
  have d5: "deliver P t3 ?i BufferRead ?w4 = Some ?w5"
    by (simp add: deliver_def a3 w4_ex)
  have w5_rs: "readystate_calls (trace ?w5) = readystate_calls (trace w) @ [1, 2, 3, 4]"
    using w4_h w4_rs e3
    by (simp add: a3 send_done_def setReadyState_def emit_def ready_defs Let_def
        readystate_calls_append readystate_calls_timer_effects)
  have w5_st: "readyState ?w5 = 4"
    by (simp add: send_done_def setReadyState_def emit_def ready_defs Let_def)
  from d3 d4 d5 w5_rs w3_tr w5_st show ?thesis
    unfolding ready_defs by blast
qed


theorem readystatechange_in_order_witness:
  "url_parse example_platform ''https://example.test/x'' = Some ''https://example.test/x'' \<and>
   onreadystatechange (run example_platform [AssignOnreadystatechange True]) \<and>
   fresh (run example_platform [AssignOnreadystatechange True]) = 0 \<and>
   trace (run example_platform [AssignOnreadystatechange True]) = [] \<and>
   (\<exists>w3 w4 w5.
      deliver example_platform 10 0 (FetchResolved example_response)
        (snd (send None (snd (xhr_open example_platform ''GET'' ''https://example.test/x''
           (run example_platform [AssignOnreadystatechange True]))))) = Some w3 \<and>
      deliver example_platform 12 0 (BlobRead blob_1) w3 = Some w4 \<and>
      deliver example_platform 13 0 BufferRead w4 = Some w5 \<and>
      readystate_calls (trace w5) = [OPENED, HEADERS_RECEIVED, LOADING, DONE] \<and>
      readyState w5 = DONE)"
proof -
  let ?w = "run example_platform [AssignOnreadystatechange True]"
  have u: "url_parse example_platform ''https://example.test/x'' = Some ''https://example.test/x''"
    by (simp add: example_platform_def)
  have h: "onreadystatechange ?w" and f: "fresh ?w = 0" and t: "trace ?w = []"
    by (simp_all add: run_def new_XMLHttpRequest_def)
  from readystatechange_in_order [OF u h, of 10 example_response None "''GET''" 12 blob_1 13]
  obtain w3 w4 w5 where
    "deliver example_platform 10 (fresh ?w) (FetchResolved example_response)
        (snd (send None (snd (xhr_open example_platform ''GET'' ''https://example.test/x'' ?w))))
       = Some w3"
    "deliver example_platform 12 (fresh ?w) (BlobRead blob_1) w3 = Some w4"
    "deliver example_platform 13 (fresh ?w) BufferRead w4 = Some w5"
    "readystate_calls (trace w5) =
       readystate_calls (trace ?w) @ [OPENED, HEADERS_RECEIVED, LOADING, DONE]"
    "readyState w5 = DONE"
    by blast
  then show ?thesis using u h f t by auto
qed

subsection \<open>C6: body representations only after the response\<close>

text \<open>
  C6 (amended). In every state an instance can reach (by method calls, reads of
  \<open>response\<close>, assignments to its public fields, the passing of time and the settling of
  promises), a stored body representation (text, buffer, blob or parsed JSON) implies a
  stored response; the response is stored from \<open>HEADERS_RECEIVED\<close> on; and at \<open>DONE\<close> the
  response and the three representations text, buffer and blob are all stored. The
  object \<open>computed\<close> itself can exist before any response: \<open>overrideMimeType\<close> creates it
  with the declared type alone. (\<open>JSON.parse\<close> is taken to reject the word \<open>undefined\<close>,
  as the platform's does.)
\<close>

theorem body_only_after_response:
  assumes "json_parse P ''undefined'' = None"
  shows "populated_in_order (run P acts)"
  using full_inv_run [OF assms] by (simp add: full_inv_def)

theorem body_only_after_response_witness:
  "json_parse example_platform ''undefined'' = None \<and>
   populated_in_order (run example_platform example_exchange) \<and>
   readyState (run example_platform example_exchange) = DONE \<and>
   response (run example_platform example_exchange) = Some example_response \<and>
   populated_in_order (run example_platform [OverrideMimeType ''json'']) \<and>
   response (run example_platform [OverrideMimeType ''json'']) = None"
proof -
  have u: "json_parse example_platform ''undefined'' = None"
    by (simp add: example_platform_def)
  have n: "response (run example_platform [OverrideMimeType ''json'']) = None"
    by (simp add: run_def overrideMimeType_def new_XMLHttpRequest_def)
  from body_only_after_response [OF u, of example_exchange]
    body_only_after_response [OF u, of "[OverrideMimeType ''json'']"]
    u n example_done_readyState example_done_response
  show ?thesis by simp
qed

theorem computed_before_response_counterexample:
  "computed (run example_platform [OverrideMimeType ''json'']) =
     Some \<lparr>c_type = Some ''json'', c_blob = None, c_text = None, c_buffer = None,
           c_json = None\<rparr> \<and>
   response (run example_platform [OverrideMimeType ''json'']) = None"
  by (simp add: run_def overrideMimeType_def new_XMLHttpRequest_def)

subsection \<open>C7: failures of an exchange\<close>

text \<open>
  C7. A rejection of the \<open>fetch\<close> promise does reach \<open>onerror\<close> after the timer is
  cancelled (lemma \<open>fetch_rejection_reaches_onerror\<close>). A failure after the headers have
  arrived does not: \<open>res.blob().then(...)\<close> is not returned from the \<open>.then\<close> callback, so
  a rejection of \<open>res.blob()\<close> or \<open>blob.arrayBuffer()\<close> is outside the chain that
  \<open>.catch\<close> guards. With a handler in \<open>onerror\<close>, \<open>open\<close>, \<open>send\<close>, the arrival of the
  headers and then a network error while the body is read, the log ends with the cleared
  timer and an unhandled rejection; \<open>onerror\<close> is never called and the instance stays at
  \<open>LOADING\<close>.
\<close>

theorem body_failure_reaches_no_handler:
  "onerror (run example_platform body_failure_exchange) \<and>
   trace (run example_platform body_failure_exchange) =
     [SetTimeoutCalled 0 50,
      FetchCalled \<lparr>f_method = ''GET'', f_url = ''https://example.test/x'', f_headers = [],
                   f_body = None, f_signal = 0\<rparr>,
      ClearTimeoutCalled 0,
      UnhandledRejection (NetworkError ''connection reset'')] \<and>
   readyState (run example_platform body_failure_exchange) = LOADING"
  by code_simp

subsection \<open>C2: the timeout\<close>

text \<open>
  C2. The claim has two halves. A timeout smaller than the time the exchange takes does
  abort the controller of that \<open>send\<close> and call \<open>ontimeout\<close> (lemma
  \<open>timeout_fires_when_exchange_is_slower\<close>, which holds for every timeout). But \<open>send\<close>
  passes \<open>timeout\<close> to \<open>setTimeout\<close> as it is, and a delay of 0 is due at once: on a new
  instance (timeout 0) with a handler in \<open>ontimeout\<close>, \<open>open\<close>, \<open>send\<close> and a response
  5 ms later, the log shows the abort and the \<open>ontimeout\<close> call before the response is
  handled.
\<close>

theorem default_timeout_fires_at_once:
  "timeout new_XMLHttpRequest = 0 \<and>
   trace (run example_platform zero_timeout_exchange) =
     [SetTimeoutCalled 0 0,
      FetchCalled \<lparr>f_method = ''GET'', f_url = ''https://example.test/x'', f_headers = [],
                   f_body = None, f_signal = 0\<rparr>,
      AbortCalled 0, Call_ontimeout, ClearTimeoutCalled 0] \<and>
   aborted (run example_platform zero_timeout_exchange) = {0}"
  by code_simp

subsection \<open>C4: the cached JSON value\<close>

text \<open>
  C4. Two exchanges in a row on one instance whose type is \<open>json\<close>: the first body is
  \<open>[1]\<close> and is read through \<open>response\<close>, the second body is \<open>[2]\<close>. The callback that
  stores the second body spreads the old \<open>computed\<close> into the new one, cached \<open>json\<close>
  included, so at the second \<open>DONE\<close> the text is \<open>[2]\<close> while \<open>response\<close> still returns
  the value parsed from \<open>[1]\<close>.
\<close>

theorem stale_json_after_second_exchange:
  "readyState (run example_platform two_json_exchanges) = DONE \<and>
   get_responseType (run example_platform two_json_exchanges) = ''json'' \<and>
   get_responseText (run example_platform two_json_exchanges) = Some ''[2]'' \<and>
   json_parse example_platform ''[2]'' = Some (JArray [JNumber 2]) \<and>
   fst (get_response example_platform (run example_platform two_json_exchanges)) =
     Returned (VJson (JArray [JNumber 1]))"
  by code_simp

end
